theory Spec2Isabelle
  imports Complex_Main
begin

section \<open>Bird-sound classification service: the upload handler of \<^verbatim>\<open>app.py\<close>\<close>

text \<open>
  The development embeds \<^verbatim>\<open>src/app.py\<close>: the extension check \<^verbatim>\<open>allowed_file\<close>, the
  min-max normalisation of \<^verbatim>\<open>preprocess_segment\<close>, the aggregation of \<^verbatim>\<open>predict_file\<close>
  and the request handler \<^verbatim>\<open>predict\<close>.

  Conventions.
  \<^item> A Python \<^verbatim>\<open>str\<close> is a \<open>string\<close>. The only characters the extension check can tell
    apart are ASCII ones: no character outside ASCII lower-cases to a letter of
    \<^verbatim>\<open>wav\<close>, \<^verbatim>\<open>mp3\<close>, \<^verbatim>\<open>flac\<close> or \<^verbatim>\<open>ogg\<close>, so \<^verbatim>\<open>str.lower\<close> is modelled on the ASCII letters
    and is the identity elsewhere.
  \<^item> A raised exception is a value \<open>Inl e\<close>; a normal return is \<open>Inr v\<close>.
  \<^item> Array entries and probabilities are rationals: every finite float is one, and
    the arithmetic is exact (rounding error of the float operations is not modelled).
\<close>

subsection \<open>Configuration (lines 13--27)\<close>

definition UPLOAD_FOLDER :: string where
  "UPLOAD_FOLDER = ''uploads''"

definition ALLOWED_EXTENSIONS :: "string set" where
  "ALLOWED_EXTENSIONS = {''wav'', ''mp3'', ''flac'', ''ogg''}"

definition TARGET_SHAPE :: "nat \<times> nat" where
  "TARGET_SHAPE = (64, 108)"

definition SAMPLE_RATE :: nat where
  "SAMPLE_RATE = 22050"

definition WINDOW_MS :: nat where
  "WINDOW_MS = 5000"

definition OVERLAP_MS :: nat where
  "OVERLAP_MS = 2500"

definition CLASS_MAP :: "nat \<rightharpoonup> string" where
  "CLASS_MAP = [0 \<mapsto> ''AtlanticCanary'', 1 \<mapsto> ''Sooty-headedBulbul'',
                2 \<mapsto> ''ZebraDove'', 3 \<mapsto> ''MoustachedBabbler'']"

subsection \<open>Exceptions\<close>

text \<open>
  The exceptions that reach the handler, each with its message; \<open>str_exn\<close> is Python's
  \<^verbatim>\<open>str(e)\<close>. All of them are subclasses of \<^verbatim>\<open>Exception\<close>, which is what the handler's
  \<^verbatim>\<open>except Exception\<close> catches.
\<close>

datatype exn = ValueError string | OSError string | RuntimeError string

fun str_exn :: "exn \<Rightarrow> string" where
  "str_exn (ValueError msg) = msg"
| "str_exn (OSError msg) = msg"
| "str_exn (RuntimeError msg) = msg"

subsection \<open>Strings: \<^verbatim>\<open>str.lower\<close> and \<^verbatim>\<open>str.rsplit(sep, 1)\<close>\<close>

definition lower_char :: "char \<Rightarrow> char" where
  "lower_char c =
     (case map_of (zip ''ABCDEFGHIJKLMNOPQRSTUVWXYZ'' ''abcdefghijklmnopqrstuvwxyz'') c of
        Some d \<Rightarrow> d
      | None \<Rightarrow> c)"

definition lower :: "string \<Rightarrow> string" where
  "lower s = map lower_char s"

text \<open>\<open>rfind c s\<close> is the index of the last occurrence of \<open>c\<close> in \<open>s\<close>, if any.\<close>

fun rfind :: "char \<Rightarrow> string \<Rightarrow> nat option" where
  "rfind c [] = None"
| "rfind c (x # xs) =
     (case rfind c xs of
        Some i \<Rightarrow> Some (Suc i)
      | None \<Rightarrow> if x = c then Some 0 else None)"

text \<open>
  \<^verbatim>\<open>s.rsplit(sep, 1)\<close> for a one-character separator: at most one split, made at the
  last occurrence of the separator; without an occurrence the result is \<^verbatim>\<open>[s]\<close>.
\<close>

definition rsplit1 :: "char \<Rightarrow> string \<Rightarrow> string list" where
  "rsplit1 sep s =
     (case rfind sep s of
        None \<Rightarrow> [s]
      | Some i \<Rightarrow> [take i s, drop (Suc i) s])"

subsection \<open>\<^verbatim>\<open>allowed_file\<close> (lines 43--44)\<close>

text \<open>
  \<^verbatim>\<open>return '.' in filename and filename.rsplit('.', 1)[1].lower() in ALLOWED_EXTENSIONS\<close>

  The index \<^verbatim>\<open>[1]\<close> is evaluated only when the first conjunct holds, and then the split
  has two parts (lemma \<open>rsplit1_length\<close>), so the read is in range and no
  \<^verbatim>\<open>IndexError\<close> can be raised.
\<close>

definition allowed_file :: "string \<Rightarrow> bool" where
  "allowed_file filename =
     (CHR ''.'' \<in> set filename \<and>
      lower (rsplit1 (CHR ''.'') filename ! 1) \<in> ALLOWED_EXTENSIONS)"


subsection \<open>Numerical steps: normalisation, mean, arg-max, rounding\<close>

text \<open>The literal \<^verbatim>\<open>1e-8\<close> of line 53.\<close>

definition EPSILON :: rat where
  "EPSILON = 1 / 10 ^ 8"

text \<open>
  \<^verbatim>\<open>spec.min()\<close> and \<^verbatim>\<open>spec.max()\<close> reduce over all entries of the array, whatever its
  shape, so an array is modelled by the list of its entries. Both raise \<^verbatim>\<open>ValueError\<close> on
  an array without entries.
\<close>

fun array_min :: "rat list \<Rightarrow> exn + rat" where
  "array_min [] =
     Inl (ValueError ''zero-size array to reduction operation minimum which has no identity'')"
| "array_min (x # xs) = Inr (foldl min x xs)"

fun array_max :: "rat list \<Rightarrow> exn + rat" where
  "array_max [] =
     Inl (ValueError ''zero-size array to reduction operation maximum which has no identity'')"
| "array_max (x # xs) = Inr (foldl max x xs)"

text \<open>Line 53: \<^verbatim>\<open>spec = (spec - spec.min()) / (spec.max() - spec.min() + 1e-8)\<close>.\<close>

definition minmax_normalize :: "rat list \<Rightarrow> exn + rat list" where
  "minmax_normalize spec =
     (case array_min spec of
        Inl e \<Rightarrow> Inl e
      | Inr lo \<Rightarrow>
          (case array_max spec of
             Inl e \<Rightarrow> Inl e
           | Inr hi \<Rightarrow> Inr (map (\<lambda>x. (x - lo) / (hi - lo + EPSILON)) spec)))"

text \<open>
  Line 72: \<^verbatim>\<open>preds.mean(axis=0)\<close> on the array of one probability row per segment: the
  rows are added entry by entry and the sums divided by the number of rows. The model
  returns one row per batch element and the batch is not empty, so the first case is
  not reached from \<open>predict_file\<close>.
\<close>

definition vec_add :: "rat list \<Rightarrow> rat list \<Rightarrow> rat list" where
  "vec_add xs ys = map2 (+) xs ys"

definition mean_axis0 :: "rat list list \<Rightarrow> rat list" where
  "mean_axis0 preds =
     (case preds of
        [] \<Rightarrow> []
      | row # rows \<Rightarrow> map (\<lambda>s. s / of_nat (length preds)) (foldl vec_add row rows))"

text \<open>
  Line 73: \<^verbatim>\<open>np.argmax\<close> scans the entries in order and keeps the index of the best value
  seen, replacing it only by a strictly larger one; it raises on an empty array.
\<close>

fun argmax_from :: "rat list \<Rightarrow> nat \<Rightarrow> nat \<Rightarrow> rat \<Rightarrow> nat" where
  "argmax_from [] i best bv = best"
| "argmax_from (x # xs) i best bv =
     (if bv < x then argmax_from xs (Suc i) i x else argmax_from xs (Suc i) best bv)"

definition np_argmax :: "rat list \<Rightarrow> exn + nat" where
  "np_argmax a =
     (case a of
        [] \<Rightarrow> Inl (ValueError ''attempt to get argmax of an empty sequence'')
      | x # xs \<Rightarrow> Inr (argmax_from xs 1 0 x))"

text \<open>
  \<^verbatim>\<open>round(p, 4)\<close>: the nearest multiple of \<open>10\<^sup>-\<^sup>4\<close>, a tie going to the even multiple.
\<close>

definition round_half_even :: "rat \<Rightarrow> int" where
  "round_half_even x =
     (let f = \<lfloor>x\<rfloor>; d = x - of_int f
      in if d < 1 / 2 then f else if 1 / 2 < d then f + 1 else if even f then f else f + 1)"

definition py_round :: "rat \<Rightarrow> nat \<Rightarrow> rat" where
  "py_round x ndigits = of_int (round_half_even (x * 10 ^ ndigits)) / 10 ^ ndigits"

subsection \<open>Labels and the response body (lines 105--111)\<close>

text \<open>\<^verbatim>\<open>f'{i}'\<close> for a natural number: its decimal digits.\<close>

definition digit_char :: "nat \<Rightarrow> char" where
  "digit_char d = ''0123456789'' ! d"

function str_nat :: "nat \<Rightarrow> string" where
  "str_nat n =
     (if n < 10 then [digit_char n] else str_nat (n div 10) @ [digit_char (n mod 10)])"
  by pat_completeness auto
termination
  by (relation "measure id") auto

declare str_nat.simps [simp del]

text \<open>\<^verbatim>\<open>CLASS_MAP.get(i, f'Class {i}')\<close>.\<close>

definition class_label :: "nat \<Rightarrow> string" where
  "class_label i = (case CLASS_MAP i of Some name \<Rightarrow> name | None \<Rightarrow> ''Class '' @ str_nat i)"

definition enumerate_py :: "'a list \<Rightarrow> (nat \<times> 'a) list" where
  "enumerate_py xs = zip [0..<length xs] xs"

text \<open>
  A dict comprehension inserts its pairs in order; a later pair with the same key
  replaces the earlier one.
\<close>

definition dict_of :: "('k \<times> 'v) list \<Rightarrow> ('k \<rightharpoonup> 'v)" where
  "dict_of kvs = foldl (\<lambda>m (k, v). m(k \<mapsto> v)) Map.empty kvs"

definition probabilities_dict :: "rat list \<Rightarrow> (string \<rightharpoonup> rat)" where
  "probabilities_dict probs =
     dict_of (map (\<lambda>(i, p). (class_label i, py_round p 4)) (enumerate_py probs))"

text \<open>
  A JSON body is either \<^verbatim>\<open>{'error': msg}\<close> or
  \<^verbatim>\<open>{'prediction': label, 'probabilities': {...}}\<close>; a response is a body with its status.
\<close>

datatype json = ErrorJson string | PredictionJson string "string \<rightharpoonup> rat"

type_synonym response = "json \<times> nat"

subsection \<open>The world: the disk and the trace of external calls\<close>

type_synonym disk = "string \<rightharpoonup> string"

datatype call =
  FileSave string | AudioOpen string | AudioSplit | Melspectrogram | ImageResize
  | ModelPredict | OsRemove string

record world =
  fs :: disk
  calls :: "call list"

definition log_call :: "call \<Rightarrow> world \<Rightarrow> world" where
  "log_call c w = w\<lparr>calls := calls w @ [c]\<rparr>"

text \<open>
  The collaborators that are not in \<^verbatim>\<open>app.py\<close> are parameters: werkzeug's
  \<^verbatim>\<open>secure_filename\<close> and \<^verbatim>\<open>FileStorage.save\<close>, \<^verbatim>\<open>os.remove\<close>, the three functions of
  \<^verbatim>\<open>AudioUtil\<close> (\<^verbatim>\<open>open\<close>, \<^verbatim>\<open>split\<close>, \<^verbatim>\<open>melspectrogram\<close>), \<^verbatim>\<open>tf.image.resize\<close> and the loaded
  model's \<^verbatim>\<open>predict\<close>. Each may raise. The types \<open>'w\<close>, \<open>'s\<close> and \<open>'m\<close> are those of a
  waveform, a segment and a mel-spectrogram.
\<close>

record ('w, 's, 'm) env =
  secure_filename :: "string \<Rightarrow> string"
  file_save :: "string \<Rightarrow> string \<Rightarrow> disk \<Rightarrow> exn + disk"
  os_remove :: "string \<Rightarrow> disk \<Rightarrow> exn + disk"
  audio_open :: "disk \<Rightarrow> string \<Rightarrow> nat \<Rightarrow> bool \<Rightarrow> exn + 'w"
  audio_split :: "'w \<Rightarrow> nat \<Rightarrow> nat \<Rightarrow> exn + 's list"
  melspectrogram :: "'s \<Rightarrow> exn + 'm"
  image_resize :: "'m \<Rightarrow> nat \<times> nat \<Rightarrow> exn + rat list"
  model_predict :: "rat list list \<Rightarrow> exn + rat list list"

subsection \<open>\<^verbatim>\<open>preprocess_segment\<close> (lines 50--54)\<close>

definition preprocess_segment ::
  "('w, 's, 'm) env \<Rightarrow> 's \<Rightarrow> world \<Rightarrow> (exn + rat list) \<times> world" where
  "preprocess_segment env segment_audio w =
     (let w1 = log_call Melspectrogram w in
      case melspectrogram env segment_audio of
        Inl e \<Rightarrow> (Inl e, w1)
      | Inr spec \<Rightarrow>
          (let w2 = log_call ImageResize w1 in
           case image_resize env spec TARGET_SHAPE of
             Inl e \<Rightarrow> (Inl e, w2)
           | Inr resized \<Rightarrow> (minmax_normalize resized, w2)))"

subsection \<open>\<^verbatim>\<open>predict_file\<close> (lines 62--74)\<close>

text \<open>The list comprehension of line 68: it stops at the first segment that raises.\<close>

fun preprocess_all ::
  "('w, 's, 'm) env \<Rightarrow> 's list \<Rightarrow> world \<Rightarrow> (exn + rat list list) \<times> world" where
  "preprocess_all env [] w = (Inr [], w)"
| "preprocess_all env (seg # segs) w =
     (case preprocess_segment env seg w of
        (Inl e, w1) \<Rightarrow> (Inl e, w1)
      | (Inr spec, w1) \<Rightarrow>
          (case preprocess_all env segs w1 of
             (Inl e, w2) \<Rightarrow> (Inl e, w2)
           | (Inr specs, w2) \<Rightarrow> (Inr (spec # specs), w2)))"

text \<open>
  \<^verbatim>\<open>np.stack(specs, axis=0)\<close> raises unless there is at least one array and all arrays
  have the same shape; the batch is then the list of the arrays.
\<close>

definition np_stack :: "rat list list \<Rightarrow> exn + rat list list" where
  "np_stack arrays =
     (case arrays of
        [] \<Rightarrow> Inl (ValueError ''need at least one array to stack'')
      | a # rest \<Rightarrow>
          if list_all (\<lambda>b. length b = length a) rest then Inr arrays
          else Inl (ValueError ''all input arrays must have the same shape''))"

definition predict_file ::
  "('w, 's, 'm) env \<Rightarrow> string \<Rightarrow> world \<Rightarrow> (exn + rat list \<times> nat) \<times> world" where
  "predict_file env audio_path w =
     (let w1 = log_call (AudioOpen audio_path) w in
      case audio_open env (fs w) audio_path SAMPLE_RATE True of
        Inl e \<Rightarrow> (Inl e, w1)
      | Inr audio \<Rightarrow>
          (let w2 = log_call AudioSplit w1 in
           case audio_split env audio WINDOW_MS OVERLAP_MS of
             Inl e \<Rightarrow> (Inl e, w2)
           | Inr segments \<Rightarrow>
               if segments = [] then (Inl (ValueError ''No valid audio segments found.''), w2)
               else
                 (case preprocess_all env segments w2 of
                    (Inl e, w3) \<Rightarrow> (Inl e, w3)
                  | (Inr specs, w3) \<Rightarrow>
                      (case np_stack specs of
                         Inl e \<Rightarrow> (Inl e, w3)
                       | Inr batch \<Rightarrow>
                           (let w4 = log_call ModelPredict w3 in
                            case model_predict env batch of
                              Inl e \<Rightarrow> (Inl e, w4)
                            | Inr preds \<Rightarrow>
                                (let avg_probs = mean_axis0 preds in
                                 case np_argmax avg_probs of
                                   Inl e \<Rightarrow> (Inl e, w4)
                                 | Inr pred_idx \<Rightarrow> (Inr (avg_probs, pred_idx), w4)))))))"

subsection \<open>The handler \<^verbatim>\<open>predict\<close> (lines 88--115)\<close>

text \<open>
  A request carries its uploaded files by field name; an uploaded file has the filename
  the client sent and its content. \<^verbatim>\<open>bool(file)\<close> is \<^verbatim>\<open>bool(file.filename)\<close>.
\<close>

record file_storage =
  filename :: string
  stream :: string

record request =
  files :: "string \<rightharpoonup> file_storage"

text \<open>\<^verbatim>\<open>os.path.join(a, b)\<close> on POSIX.\<close>

definition os_path_join :: "string \<Rightarrow> string \<Rightarrow> string" where
  "os_path_join a b =
     (if b \<noteq> [] \<and> hd b = CHR ''/'' then b
      else if a = [] \<or> last a = CHR ''/'' then a @ b
      else a @ ''/'' @ b)"

text \<open>
  The result is \<open>Inr\<close> of the response the handler returns, or \<open>Inl\<close> of an exception that
  leaves the handler: \<^verbatim>\<open>file.save\<close> is called before the \<^verbatim>\<open>try\<close>.
\<close>

definition predict ::
  "('w, 's, 'm) env \<Rightarrow> request \<Rightarrow> world \<Rightarrow> (exn + response) \<times> world" where
  "predict env req w =
     (case files req ''file'' of
        None \<Rightarrow> (Inr (ErrorJson ''No file part in the request'', 400), w)
      | Some file \<Rightarrow>
          if filename file = [] then (Inr (ErrorJson ''No selected file'', 400), w)
          else if filename file \<noteq> [] \<and> allowed_file (filename file) then
            (let fname = secure_filename env (filename file);
                 filepath = os_path_join UPLOAD_FOLDER fname;
                 w1 = log_call (FileSave filepath) w
             in case file_save env filepath (stream file) (fs w1) of
                  Inl e \<Rightarrow> (Inl e, w1)
                | Inr d \<Rightarrow>
                    (case predict_file env filepath (w1\<lparr>fs := d\<rparr>) of
                       (Inl e, w2) \<Rightarrow>
                         (Inr (ErrorJson (''Inference failed: '' @ str_exn e), 500), w2)
                     | (Inr (probs, pred_idx), w2) \<Rightarrow>
                         (let w3 = log_call (OsRemove filepath) w2 in
                          case os_remove env filepath (fs w3) of
                            Inl e \<Rightarrow>
                              (Inr (ErrorJson (''Inference failed: '' @ str_exn e), 500), w3)
                          | Inr d' \<Rightarrow>
                              (Inr (PredictionJson (class_label pred_idx)
                                      (probabilities_dict probs), 200),
                               w3\<lparr>fs := d'\<rparr>))))
          else (Inr (ErrorJson ''Unsupported file extension'', 400), w))"

subsection \<open>A concrete environment\<close>

text \<open>
  A small environment to run the handler on: filenames are kept as they are, saving
  writes the file, removing deletes it and fails on a missing file, a stored file
  decodes to one sample per character, a waveform without samples has no segment and
  any other is one segment, and the model answers the same row for every segment.
\<close>

definition disk_save :: "string \<Rightarrow> string \<Rightarrow> disk \<Rightarrow> exn + disk" where
  "disk_save path content d = Inr (d(path \<mapsto> content))"

definition disk_remove :: "string \<Rightarrow> disk \<Rightarrow> exn + disk" where
  "disk_remove path d =
     (case d path of
        None \<Rightarrow> Inl (OSError ''No such file or directory'')
      | Some c \<Rightarrow> Inr (d(path := None)))"

definition demo_open :: "disk \<Rightarrow> string \<Rightarrow> nat \<Rightarrow> bool \<Rightarrow> exn + rat list" where
  "demo_open d path rate as_mono =
     (case d path of
        None \<Rightarrow> Inl (OSError ''No such file or directory'')
      | Some content \<Rightarrow> Inr (map (\<lambda>c. 1) content))"

definition demo_split :: "rat list \<Rightarrow> nat \<Rightarrow> nat \<Rightarrow> exn + rat list list" where
  "demo_split audio window overlap = Inr (if audio = [] then [] else [audio])"

definition demo_env :: "(rat list, rat list, rat list) env" where
  "demo_env =
     \<lparr>secure_filename = (\<lambda>name. name),
      file_save = disk_save,
      os_remove = disk_remove,
      audio_open = demo_open,
      audio_split = demo_split,
      melspectrogram = (\<lambda>seg. Inr seg),
      image_resize = (\<lambda>spec shape. Inr spec),
      model_predict = (\<lambda>batch. Inr (map (\<lambda>x. [1 / 8, 1 / 8, 1 / 2, 1 / 4]) batch))\<rparr>"

text \<open>The same environment on a disk that refuses to delete.\<close>

definition locked_env :: "(rat list, rat list, rat list) env" where
  "locked_env = demo_env\<lparr>os_remove := (\<lambda>path d. Inl (OSError ''Permission denied''))\<rparr>"

definition upload :: "string \<Rightarrow> string \<Rightarrow> request" where
  "upload name content = \<lparr>files = [''file'' \<mapsto> \<lparr>filename = name, stream = content\<rparr>]\<rparr>"

definition empty_world :: world where
  "empty_world = \<lparr>fs = Map.empty, calls = []\<rparr>"

section \<open>Properties\<close>

subsection \<open>The split at the last dot\<close>

lemma rfind_None: "rfind c s = None \<longleftrightarrow> c \<notin> set s"
  by (induction s) (auto split: option.splits)

lemma rfind_Some:
  "rfind c s = Some i \<Longrightarrow> i < length s \<and> s ! i = c \<and> c \<notin> set (drop (Suc i) s)"
proof (induction s arbitrary: i)
  case Nil
  then show ?case by simp
next
  case (Cons x xs)
  show ?case
  proof (cases "rfind c xs")
    case None
    with Cons.prems have "x = c" "i = 0" by (auto split: if_splits)
    moreover from None have "c \<notin> set xs" by (simp add: rfind_None)
    ultimately show ?thesis by simp
  next
    case (Some j)
    with Cons.prems have "i = Suc j" by simp
    with Cons.IH[OF Some] show ?thesis by simp
  qed
qed

lemma rsplit1_length: "c \<in> set s \<Longrightarrow> length (rsplit1 c s) = 2"
  by (cases "rfind c s") (auto simp: rsplit1_def rfind_None)

lemma rfind_append_last: "c \<notin> set ext \<Longrightarrow> rfind c (pre @ c # ext) = Some (length pre)"
proof (induction pre)
  case Nil
  then show ?case by (simp add: rfind_None[THEN iffD2])
next
  case (Cons a pre)
  then show ?case by simp
qed

lemma rsplit1_last_dot: "c \<notin> set ext \<Longrightarrow> rsplit1 c (pre @ c # ext) = [pre, ext]"
  by (simp add: rsplit1_def rfind_append_last)

lemma rsplit1_decompose:
  assumes "c \<in> set s"
  shows "\<exists>pre ext. s = pre @ c # ext \<and> c \<notin> set ext \<and> rsplit1 c s = [pre, ext]"
proof -
  from assms obtain i where i: "rfind c s = Some i"
    by (cases "rfind c s") (auto simp: rfind_None)
  from rfind_Some[OF i] have "s = take i s @ c # drop (Suc i) s" "c \<notin> set (drop (Suc i) s)"
    by (auto simp: id_take_nth_drop)
  with i show ?thesis by (auto simp: rsplit1_def)
qed

lemma lower_char_not_dot:
  assumes "c \<noteq> CHR ''.''"
  shows "lower_char c \<noteq> CHR ''.''"
proof (cases "map_of (zip ''ABCDEFGHIJKLMNOPQRSTUVWXYZ'' ''abcdefghijklmnopqrstuvwxyz'') c")
  case None
  with assms show ?thesis by (simp add: lower_char_def)
next
  case (Some d)
  then have "(c, d) \<in> set (zip ''ABCDEFGHIJKLMNOPQRSTUVWXYZ'' ''abcdefghijklmnopqrstuvwxyz'')"
    by (rule map_of_SomeD)
  then have "d \<in> set ''abcdefghijklmnopqrstuvwxyz''"
    by (rule set_zip_rightD)
  then have "d \<noteq> CHR ''.''" by auto
  with Some show ?thesis by (simp add: lower_char_def)
qed

lemma lower_char_dot: "lower_char (CHR ''.'') = CHR ''.''"
  by (simp add: lower_char_def)

lemma lower_no_dot: "CHR ''.'' \<in> set (lower s) \<longleftrightarrow> CHR ''.'' \<in> set s"
proof (induction s)
  case Nil
  then show ?case by (simp add: lower_def)
next
  case (Cons a s)
  have "lower_char a = CHR ''.'' \<longleftrightarrow> a = CHR ''.''"
    using lower_char_not_dot [of a] lower_char_dot by auto
  with Cons show ?case by (auto simp: lower_def)
qed

subsection \<open>Claims about \<^verbatim>\<open>allowed_file\<close>\<close>

text \<open>
  C2. For every filename, \<open>allowed_file\<close> holds exactly when the filename contains a dot
  and the part after its last dot, lower-cased, is one of \<^verbatim>\<open>wav\<close>, \<^verbatim>\<open>mp3\<close>, \<^verbatim>\<open>flac\<close>, \<^verbatim>\<open>ogg\<close>
  (the part after the last dot is the \<open>ext\<close> of the unique decomposition
  \<open>pre @ ''.'' @ ext\<close> with no dot in \<open>ext\<close>); a filename without a dot is rejected.
\<close>

theorem allowed_file_iff:
  "(allowed_file name \<longleftrightarrow>
      (\<exists>pre ext. name = pre @ CHR ''.'' # ext \<and> CHR ''.'' \<notin> set ext \<and>
          lower ext \<in> {''wav'', ''mp3'', ''flac'', ''ogg''})) \<and>
   (CHR ''.'' \<notin> set name \<longrightarrow> \<not> allowed_file name)"
proof (intro conjI iffI impI)
  assume a: "allowed_file name"
  then have "CHR ''.'' \<in> set name" by (simp add: allowed_file_def)
  from rsplit1_decompose[OF this] obtain pre ext where
    d: "name = pre @ CHR ''.'' # ext" "CHR ''.'' \<notin> set ext"
       "rsplit1 (CHR ''.'') name = [pre, ext]" by blast
  with a have "lower ext \<in> {''wav'', ''mp3'', ''flac'', ''ogg''}"
    by (simp add: allowed_file_def ALLOWED_EXTENSIONS_def)
  with d show "\<exists>pre ext. name = pre @ CHR ''.'' # ext \<and> CHR ''.'' \<notin> set ext \<and>
          lower ext \<in> {''wav'', ''mp3'', ''flac'', ''ogg''}" by blast
next
  assume "\<exists>pre ext. name = pre @ CHR ''.'' # ext \<and> CHR ''.'' \<notin> set ext \<and>
          lower ext \<in> {''wav'', ''mp3'', ''flac'', ''ogg''}"
  then obtain pre ext where d: "name = pre @ CHR ''.'' # ext" "CHR ''.'' \<notin> set ext"
     "lower ext \<in> {''wav'', ''mp3'', ''flac'', ''ogg''}" by blast
  from rsplit1_last_dot[OF d(2)] d show "allowed_file name"
    by (simp add: allowed_file_def ALLOWED_EXTENSIONS_def)
next
  assume "CHR ''.'' \<notin> set name"
  then show "\<not> allowed_file name" by (simp add: allowed_file_def)
qed

theorem allowed_file_iff_witness:
  "allowed_file ''dawn.chorus.flac'' \<and> \<not> allowed_file ''recording'' \<and> \<not> allowed_file ''wav''"
proof -
  have "\<exists>pre ext. ''dawn.chorus.flac'' = pre @ CHR ''.'' # ext \<and> CHR ''.'' \<notin> set ext \<and>
          lower ext \<in> {''wav'', ''mp3'', ''flac'', ''ogg''}"
    by (rule exI [of _ "''dawn.chorus''"], rule exI [of _ "''flac''"])
      (simp add: lower_def lower_char_def)
  then have "allowed_file ''dawn.chorus.flac''"
    using allowed_file_iff [of "''dawn.chorus.flac''", THEN conjunct1] by (rule iffD2 [rotated])
  moreover have "\<not> allowed_file ''recording''"
    using allowed_file_iff [of "''recording''", THEN conjunct2] by simp
  moreover have "\<not> allowed_file ''wav''"
    using allowed_file_iff [of "''wav''", THEN conjunct2] by simp
  ultimately show ?thesis by simp
qed

text \<open>
  C9. The extension check ignores letter case: a filename \<open>base @ ''.'' @ ext\<close> whose
  extension lower-cases to an allowed extension is accepted, whatever the case of its
  letters (\<^verbatim>\<open>song.WAV\<close>, \<^verbatim>\<open>song.Mp3\<close>).
\<close>

theorem allowed_file_case_insensitive:
  "lower ext \<in> ALLOWED_EXTENSIONS \<Longrightarrow> allowed_file (base @ CHR ''.'' # ext)"
proof -
  assume a: "lower ext \<in> ALLOWED_EXTENSIONS"
  have "CHR ''.'' \<notin> set (lower ext)"
    using a by (auto simp: ALLOWED_EXTENSIONS_def)
  then have "CHR ''.'' \<notin> set ext" by (simp add: lower_no_dot)
  from rsplit1_last_dot[OF this] a show ?thesis
    by (simp add: allowed_file_def)
qed

theorem allowed_file_case_insensitive_witness:
  "allowed_file ''song.WAV'' \<and> allowed_file ''song.Mp3'' \<and> allowed_file ''song.wav''"
proof -
  have l: "lower ''WAV'' \<in> ALLOWED_EXTENSIONS" "lower ''Mp3'' \<in> ALLOWED_EXTENSIONS"
    "lower ''wav'' \<in> ALLOWED_EXTENSIONS"
    by (simp_all add: lower_def lower_char_def ALLOWED_EXTENSIONS_def)
  show ?thesis
    using allowed_file_case_insensitive [OF l(1), of "''song''"]
      allowed_file_case_insensitive [OF l(2), of "''song''"]
      allowed_file_case_insensitive [OF l(3), of "''song''"]
    by simp
qed


subsection \<open>Normalisation\<close>











subsection \<open>Aggregation\<close>







subsection \<open>Rounding, labels and the probabilities mapping\<close>

lemma floor_numeral_div: "\<lfloor>numeral a / numeral b :: rat\<rfloor> = numeral a div numeral b"
  using floor_divide_of_int_eq [of "numeral a" "numeral b", where ?'a = rat] by simp

lemma digit_char_inj: "a < 10 \<Longrightarrow> b < 10 \<Longrightarrow> digit_char a = digit_char b \<Longrightarrow> a = b"
proof -
  assume "a < 10" "b < 10" "digit_char a = digit_char b"
  moreover have "distinct ''0123456789''" by simp
  moreover have "length ''0123456789'' = 10" by simp
  ultimately show "a = b" unfolding digit_char_def
    by (metis nth_eq_iff_index_eq)
qed

lemma str_nat_nonempty: "str_nat n \<noteq> []"
  by (subst str_nat.simps) simp

lemma str_nat_inj: "str_nat n = str_nat m \<Longrightarrow> n = m"
proof (induction n arbitrary: m rule: less_induct)
  case (less n)
  show ?case
  proof (cases "n < 10")
    case n: True
    show ?thesis
    proof (cases "m < 10")
      case True
      from less.prems n True have "digit_char n = digit_char m"
        by (simp add: str_nat.simps [of n] str_nat.simps [of m])
      with n True show ?thesis by (rule digit_char_inj)
    next
      case False
      from less.prems n False have "[digit_char n] = str_nat (m div 10) @ [digit_char (m mod 10)]"
        by (simp add: str_nat.simps [of n] str_nat.simps [of m])
      then have "str_nat (m div 10) = []" by simp
      with str_nat_nonempty show ?thesis by blast
    qed
  next
    case n: False
    show ?thesis
    proof (cases "m < 10")
      case True
      from less.prems n True have "str_nat (n div 10) @ [digit_char (n mod 10)] = [digit_char m]"
        by (simp add: str_nat.simps [of n] str_nat.simps [of m])
      then have "str_nat (n div 10) = []" by simp
      with str_nat_nonempty show ?thesis by blast
    next
      case False
      from less.prems n False
      have "str_nat (n div 10) @ [digit_char (n mod 10)] = str_nat (m div 10) @ [digit_char (m mod 10)]"
        by (simp add: str_nat.simps [of n] str_nat.simps [of m])
      then have a: "str_nat (n div 10) = str_nat (m div 10)"
        and b: "digit_char (n mod 10) = digit_char (m mod 10)" by simp_all
      from n have "n div 10 < n" by simp
      from less.IH [OF this a] have d: "n div 10 = m div 10" .
      have "n mod 10 = m mod 10" by (rule digit_char_inj [OF _ _ b]) simp_all
      with d show ?thesis by (metis div_mult_mod_eq)
    qed
  qed
qed

lemma class_label_table:
  "class_label 0 = ''AtlanticCanary''" "class_label 1 = ''Sooty-headedBulbul''"
  "class_label 2 = ''ZebraDove''" "class_label 3 = ''MoustachedBabbler''"
  by (simp_all add: class_label_def CLASS_MAP_def)

lemma class_label_fallback: "4 \<le> i \<Longrightarrow> class_label i = ''Class '' @ str_nat i"
  by (simp add: class_label_def CLASS_MAP_def)

lemma class_label_known:
  assumes "i < 4"
  shows "class_label i = [''AtlanticCanary'', ''Sooty-headedBulbul'', ''ZebraDove'',
                          ''MoustachedBabbler''] ! i"
proof -
  from assms have "i = 0 \<or> i = 1 \<or> i = 2 \<or> i = 3" by arith
  then show ?thesis using class_label_table by (elim disjE) simp_all
qed

lemma class_label_known_hd: "i < 4 \<Longrightarrow> hd (class_label i) \<noteq> CHR ''C''"
proof -
  assume "i < 4"
  then have "i = 0 \<or> i = 1 \<or> i = 2 \<or> i = 3" by arith
  then show ?thesis using class_label_table by (elim disjE) simp_all
qed

lemma class_label_inj: "class_label i = class_label j \<Longrightarrow> i = j"
proof -
  assume eq: "class_label i = class_label j"
  let ?names = "[''AtlanticCanary'', ''Sooty-headedBulbul'', ''ZebraDove'', ''MoustachedBabbler'']"
  have d: "distinct ?names" by simp
  have len: "length ?names = 4" by simp
  consider "i < 4" "j < 4" | "i < 4" "4 \<le> j" | "4 \<le> i" "j < 4" | "4 \<le> i" "4 \<le> j"
    by linarith
  then show ?thesis
  proof cases
    case 1
    with eq have "?names ! i = ?names ! j" by (simp only: class_label_known)
    with d 1 len show ?thesis by (metis nth_eq_iff_index_eq)
  next
    case 2
    have "hd (class_label j) = CHR ''C''" by (simp add: class_label_fallback [OF 2(2)])
    with class_label_known_hd [OF 2(1)] eq show ?thesis by simp
  next
    case 3
    have "hd (class_label i) = CHR ''C''" by (simp add: class_label_fallback [OF 3(1)])
    with class_label_known_hd [OF 3(2)] eq show ?thesis by simp
  next
    case 4
    with eq have "str_nat i = str_nat j" by (simp add: class_label_fallback)
    then show ?thesis by (rule str_nat_inj)
  qed
qed

lemma dom_dict_of_aux:
  "dom (foldl (\<lambda>m (k, v). m(k \<mapsto> v)) m0 kvs) = dom m0 \<union> fst ` set kvs"
proof (induction kvs arbitrary: m0)
  case Nil
  then show ?case by simp
next
  case (Cons kv kvs)
  obtain k v where kv: "kv = (k, v)" by (cases kv)
  show ?case unfolding kv using Cons.IH [of "m0(k \<mapsto> v)"] by auto
qed

lemma dom_dict_of: "dom (dict_of kvs) = fst ` set kvs"
  by (simp add: dict_of_def dom_dict_of_aux)

lemma dict_of_snoc: "dict_of (kvs @ [(k, v)]) = (dict_of kvs)(k \<mapsto> v)"
  by (simp add: dict_of_def)

lemma dict_of_distinct:
  "distinct (map fst kvs) \<Longrightarrow> (k, v) \<in> set kvs \<Longrightarrow> dict_of kvs k = Some v"
proof (induction kvs rule: rev_induct)
  case Nil
  then show ?case by simp
next
  case (snoc x xs)
  obtain k' v' where x: "x = (k', v')" by (cases x)
  show ?case
  proof (cases "k = k'")
    case True
    with snoc.prems x have "v = v'" by (auto simp: image_iff)
    with True x show ?thesis by (simp add: dict_of_snoc)
  next
    case False
    with snoc x show ?thesis by (auto simp: dict_of_snoc)
  qed
qed

lemma probabilities_dict_keys:
  "dom (probabilities_dict probs) = class_label ` {0..<length probs} \<and>
   card (dom (probabilities_dict probs)) = length probs \<and>
   (\<forall>i<length probs. probabilities_dict probs (class_label i) = Some (py_round (probs ! i) 4))"
proof -
  let ?kvs = "map (\<lambda>(i, p). (class_label i, py_round p 4)) (enumerate_py probs)"
  have keys: "map fst ?kvs = map class_label [0..<length probs]"
    by (simp add: enumerate_py_def o_def split_def) (simp add: map_fst_zip flip: map_map [unfolded o_def])
  have inj: "inj class_label" by (rule injI) (rule class_label_inj)
  have d: "distinct (map fst ?kvs)"
    unfolding keys by (simp add: distinct_map inj_on_def class_label_inj)
  have "dom (probabilities_dict probs) = set (map fst ?kvs)"
    by (simp add: probabilities_dict_def dom_dict_of image_image)
  then have dom: "dom (probabilities_dict probs) = class_label ` {0..<length probs}"
    unfolding keys by simp
  have card: "card (class_label ` {0..<length probs}) = length probs"
    using inj by (simp add: card_image inj_on_def class_label_inj)
  have val: "probabilities_dict probs (class_label i) = Some (py_round (probs ! i) 4)"
    if "i < length probs" for i
  proof -
    have "(i, probs ! i) \<in> set (enumerate_py probs)"
      using that by (auto simp: enumerate_py_def in_set_zip intro!: exI [of _ i])
    then have "(class_label i, py_round (probs ! i) 4) \<in> set ?kvs"
      by (auto simp: image_iff intro!: bexI [of _ "(i, probs ! i)"])
    with d show ?thesis unfolding probabilities_dict_def by (rule dict_of_distinct)
  qed
  show ?thesis using dom card val by simp
qed

lemma round_half_even_bounds:
  "\<bar>of_int (round_half_even x) - x\<bar> \<le> 1 / 2"
proof -
  have "of_int \<lfloor>x\<rfloor> \<le> x" "x < of_int \<lfloor>x\<rfloor> + 1" by linarith+
  then show ?thesis
    by (auto simp: round_half_even_def Let_def abs_le_iff)
qed

lemma py_round_spec:
  "\<exists>n::int. py_round x 4 = of_int n / 10 ^ 4 \<and> \<bar>py_round x 4 - x\<bar> \<le> 1 / 20000"
proof -
  let ?n = "round_half_even (x * 10 ^ 4)"
  have "\<bar>of_int ?n - x * 10 ^ 4\<bar> \<le> 1 / 2" by (rule round_half_even_bounds)
  then have "\<bar>of_int ?n / 10 ^ 4 - x\<bar> \<le> 1 / 20000"
    by (simp add: abs_le_iff field_simps)
  then show ?thesis unfolding py_round_def by blast
qed


end
